theory Spec2Isabelle
  imports Main
begin

section \<open>Python string primitives used by the validator\<close>

text \<open>
  Strings are modelled as \<^typ>\<open>string\<close>: a character is a code point below 256.
  \<open>str.lower()\<close> maps the cased capitals of that range to their small letters, 32 code
  points up: \<open>A\<close> to \<open>Z\<close> (65 to 90) and the Latin-1 capitals 192 to 222 without the
  multiplication sign 215. Every other code point below 256 is left as it is.
\<close>

definition lower_char :: "char \<Rightarrow> char" where
  "lower_char c =
     (let n = (of_char c :: nat)
      in if (65 \<le> n \<and> n \<le> 90) \<or> (192 \<le> n \<and> n \<le> 222 \<and> n \<noteq> 215)
         then char_of (n + 32) else c)"

definition lower :: "string \<Rightarrow> string" where
  "lower s = map lower_char s"

text \<open>\<open>s.split(c)\<close> for a one-character separator: never the empty list.\<close>

fun split :: "char \<Rightarrow> string \<Rightarrow> string list" where
  "split c [] = [[]]"
| "split c (x # xs) =
     (if x = c then [] # split c xs
      else (case split c xs of [] \<Rightarrow> [[x]] | w # ws \<Rightarrow> (x # w) # ws))"

text \<open>\<open>s.replace(c, "")\<close> for a one-character pattern.\<close>

definition remove_char :: "char \<Rightarrow> string \<Rightarrow> string" where
  "remove_char c s = filter (\<lambda>x. x \<noteq> c) s"

text \<open>\<open>s.endswith(suf)\<close>.\<close>

definition endswith :: "string \<Rightarrow> string \<Rightarrow> bool" where
  "endswith s suf = (length suf \<le> length s \<and> drop (length s - length suf) s = suf)"

text \<open>\<open>s.rstrip('.')\<close>: every trailing dot is removed.\<close>

definition rstrip_dot :: "string \<Rightarrow> string" where
  "rstrip_dot s = rev (dropWhile (\<lambda>c. c = CHR ''.'') (rev s))"

text \<open>\<open>str(n)\<close> for a Python integer.\<close>

fun digits :: "nat \<Rightarrow> string" where
  "digits n =
     (if n < 10 then [''0123456789'' ! n]
      else digits (n div 10) @ [''0123456789'' ! (n mod 10)])"

declare digits.simps [simp del]

definition str_int :: "int \<Rightarrow> string" where
  "str_int i = (if i < 0 then CHR ''-'' # digits (nat (- i)) else digits (nat i))"

section \<open>Domain policy: role accounts and top-level domains\<close>

definition ROLE_BASED_USERS :: "string set" where
  "ROLE_BASED_USERS =
     {''admin'', ''info'', ''support'', ''sales'', ''contact'', ''webmaster'',
      ''postmaster'', ''abuse'', ''hostmaster''}"

definition is_role_based :: "string \<Rightarrow> bool" where
  "is_role_based email =
     (let local_part =
            remove_char CHR ''.'' (hd (split CHR ''+'' (lower (hd (split CHR ''@'' email)))))
      in local_part \<in> ROLE_BASED_USERS)"

text \<open>
  \<open>VALID_TLDS\<close> is a Python set literal. \<open>list(VALID_TLDS)\<close> enumerates it in an order the
  language does not fix, so \<open>is_valid_tld_from\<close> takes the enumeration as an argument;
  \<open>VALID_TLDS\<close> below is the enumeration in the order of the literal.
\<close>

definition VALID_TLDS :: "string list" where
  "VALID_TLDS =
     [''.com'', ''.net'', ''.org'', ''.edu'', ''.gov'', ''.co'', ''.io'', ''.dev'',
      ''.info'', ''.biz'', ''.mx'', ''.es'', ''.app'', ''.xyz'']"

text \<open>\<open>sorted(list(VALID_TLDS), key=len, reverse=True)\<close>: a stable sort, longest first.\<close>

definition sorted_tlds :: "string list \<Rightarrow> string list" where
  "sorted_tlds tlds = sort_key (\<lambda>tld. - int (length tld)) tlds"

text \<open>
  The \<open>for tld in sorted_tlds\<close> loop; a suffix that is the whole domain does not end it.
  Next to the value it returns, the loop gives the candidates it has tested, in the order
  in which it tested them.
\<close>

fun tld_loop :: "string list \<Rightarrow> string \<Rightarrow> bool \<times> string list" where
  "tld_loop [] domain = (False, [])"
| "tld_loop (tld # rest) domain =
     (if endswith domain tld then
        (let tld_start_index = int (length domain) - int (length tld)
         in if tld_start_index > 0 then (True, [tld])
            else (case tld_loop rest domain of (b, tested) \<Rightarrow> (b, tld # tested)))
      else (case tld_loop rest domain of (b, tested) \<Rightarrow> (b, tld # tested)))"

definition is_valid_tld_tested :: "string list \<Rightarrow> string \<Rightarrow> bool \<times> string list" where
  "is_valid_tld_tested tlds domain = tld_loop (sorted_tlds tlds) domain"

definition is_valid_tld_from :: "string list \<Rightarrow> string \<Rightarrow> bool" where
  "is_valid_tld_from tlds domain = fst (is_valid_tld_tested tlds domain)"

definition is_valid_tld :: "string \<Rightarrow> bool" where
  "is_valid_tld domain = is_valid_tld_from VALID_TLDS domain"

section \<open>Exceptions\<close>

text \<open>
  The exceptions the network calls can raise, as far as the handlers of the program tell
  them apart. Every constructor is a subclass of Python's \<open>Exception\<close>. \<open>socket.error\<close>
  is an alias of \<open>OSError\<close>, and \<open>is_OSError\<close> gives the standard library's subclasses of
  it: the timeouts, the \<open>smtplib\<close> exceptions and the \<open>ConnectionError\<close> family.
\<close>

datatype py_exception =
    IndexError
  | NXDOMAIN
  | NoAnswer
  | SocketTimeout
  | TimeoutError
  | SMTPConnectError
  | SMTPServerDisconnected
  | ConnectionResetError
  | ConnectionRefusedError
  | OtherOSError string
  | OtherException string

fun is_OSError :: "py_exception \<Rightarrow> bool" where
  "is_OSError SocketTimeout = True"
| "is_OSError TimeoutError = True"
| "is_OSError SMTPConnectError = True"
| "is_OSError SMTPServerDisconnected = True"
| "is_OSError ConnectionResetError = True"
| "is_OSError ConnectionRefusedError = True"
| "is_OSError (OtherOSError name) = True"
| "is_OSError e = False"

section \<open>MX resolution\<close>

text \<open>
  One answer of the resolver: \<open>exchange\<close> is \<open>str(answer.exchange)\<close>, \<open>preference\<close> is
  \<open>int(answer.preference)\<close>. \<open>resolver.resolve(domain, 'MX')\<close> either raises or returns
  the answers in the resolver's order.
\<close>

record mx_answer =
  exchange :: string
  preference :: int

type_synonym resolver = "string \<Rightarrow> py_exception + mx_answer list"

definition host_of :: "mx_answer \<Rightarrow> string" where
  "host_of answer = rstrip_dot (exchange answer)"

text \<open>
  The sort key of a host name \<open>x\<close>: element \<open>[0]\<close> of the preferences of the answers whose
  host name is \<open>x\<close>.
\<close>

definition sort_key_of :: "mx_answer list \<Rightarrow> string \<Rightarrow> py_exception + int" where
  "sort_key_of mx_answers x =
     (case [preference mx. mx \<leftarrow> mx_answers, host_of mx = x] of
        [] \<Rightarrow> Inl IndexError
      | p # _ \<Rightarrow> Inr p)"

fun collect :: "('e + 'a) list \<Rightarrow> 'e + 'a list" where
  "collect [] = Inr []"
| "collect (Inl e # rest) = Inl e"
| "collect (Inr v # rest) = (case collect rest of Inl e \<Rightarrow> Inl e | Inr vs \<Rightarrow> Inr (v # vs))"

text \<open>
  \<open>mx_records.sort(key=...)\<close>: the key of every element is computed first, then the
  elements are sorted stably by their keys.
\<close>

definition sort_by_key :: "(string \<Rightarrow> py_exception + int) \<Rightarrow> string list \<Rightarrow> py_exception + string list" where
  "sort_by_key key xs =
     (case collect (map key xs) of
        Inl e \<Rightarrow> Inl e
      | Inr keys \<Rightarrow> Inr (map fst (sort_key snd (zip xs keys))))"

text \<open>The body of the \<open>try\<close> block of \<open>sync_mx_lookup\<close>.\<close>

definition mx_lookup_body :: "resolver \<Rightarrow> string \<Rightarrow> py_exception + string list" where
  "mx_lookup_body resolve domain =
     (case resolve domain of
        Inl e \<Rightarrow> Inl e
      | Inr mx_answers \<Rightarrow>
          (let mx_records = map host_of mx_answers
           in sort_by_key (sort_key_of mx_answers) mx_records))"

text \<open>
  The \<open>try\<close> block with its handlers: \<open>None\<close> is Python's \<open>None\<close>, \<open>Some []\<close> the empty
  list. The last handler is \<open>except Exception\<close>.
\<close>

definition sync_mx_lookup :: "resolver \<Rightarrow> string \<Rightarrow> py_exception + string list option" where
  "sync_mx_lookup resolve domain =
     (case mx_lookup_body resolve domain of
        Inr mx_records \<Rightarrow> Inr (Some mx_records)
      | Inl e \<Rightarrow>
          if e = NXDOMAIN then Inr None
          else if e = NoAnswer then Inr (Some [])
          else Inr None)"

definition get_mx_records :: "resolver \<Rightarrow> string \<Rightarrow> py_exception + string list option" where
  "get_mx_records resolve domain = sync_mx_lookup resolve domain"

section \<open>SMTP probe\<close>

text \<open>
  What the mail server does in one session: each call of the dialogue either raises or
  returns its reply code.
\<close>

record smtp_session =
  connect_reply :: "py_exception + int"
  helo_reply :: "py_exception + int"
  mail_reply :: "py_exception + int"
  rcpt_reply :: "py_exception + int"

type_synonym smtp_server = "string \<Rightarrow> string \<Rightarrow> smtp_session"

text \<open>The body of the \<open>try\<close> block of \<open>check_smtp\<close>.\<close>

definition smtp_dialogue :: "smtp_session \<Rightarrow> py_exception + string \<times> string" where
  "smtp_dialogue s =
     (case connect_reply s of
        Inl e \<Rightarrow> Inl e
      | Inr _ \<Rightarrow>
     (case helo_reply s of
        Inl e \<Rightarrow> Inl e
      | Inr _ \<Rightarrow>
     (case mail_reply s of
        Inl e \<Rightarrow> Inl e
      | Inr code \<Rightarrow>
          if code \<noteq> 250 then Inr (''refused'', ''Server refused MAIL FROM command.'')
          else
     (case rcpt_reply s of
        Inl e \<Rightarrow> Inl e
      | Inr code \<Rightarrow>
          if code = 250 then
            Inr (''success'',
                 ''The mail server confirmed the email address exists (Code 250).'')
          else if code = 550 \<or> code = 553 then
            Inr (''refused'',
                 ''Mailbox does not exist (550/553) or server explicitly rejected the address.'')
          else
            Inr (''refused'',
                 ''Server rejected the recipient with code '' @ str_int code @ ''.'')))))"

text \<open>
  \<open>check_smtp\<close>: \<open>mx_records[0]\<close> is read before the \<open>try\<close>; the handlers are tried in
  the order of the source, each by class membership. The \<open>finally\<close> clause swallows
  whatever closing the connection raises and does not change the returned pair.
\<close>

definition check_smtp :: "smtp_server \<Rightarrow> string \<Rightarrow> string list \<Rightarrow> py_exception + string \<times> string" where
  "check_smtp server email mx_records =
     (case mx_records of
        [] \<Rightarrow> Inl IndexError
      | mx_server # _ \<Rightarrow>
          (case smtp_dialogue (server mx_server email) of
             Inr r \<Rightarrow> Inr r
           | Inl e \<Rightarrow>
               if e = SocketTimeout \<or> e = TimeoutError then
                 Inr (''timeout'',
                      ''Connection to the mail server ('' @ mx_server @ '') timed out.'')
               else if e = SMTPConnectError then
                 Inr (''refused'',
                      ''Could not connect to the mail server ('' @ mx_server @ '') on port 25.'')
               else if e = SMTPServerDisconnected \<or> e = ConnectionResetError \<or> is_OSError e then
                 Inr (''timeout'',
                      ''The mail server or network unexpectedly disconnected during validation. Status is uncertain.'')
               else
                 Inr (''unknown'', ''An unexpected critical error occurred.'')))"

section \<open>The validation endpoint\<close>

record validation_result =
  is_valid_format :: bool
  domain_exists :: bool
  is_blacklisted :: bool
  smtp_check_status :: string
  is_role_based_field :: bool
  message :: string
  mx_records_field :: "string list option"

text \<open>
  What a request depends on besides its arguments: the blacklist loaded at start-up, the
  DNS resolver and the mail servers.
\<close>

record environment =
  BLACKLISTED_DOMAINS :: "string set"
  env_resolve :: resolver
  env_server :: smtp_server

text \<open>The calls a request makes to the two network stages, in order.\<close>

datatype call = GetMxRecords string | CheckSmtp string "string list"

definition quoted :: "string \<Rightarrow> string" where
  "quoted s = [CHR 0x27] @ s @ [CHR 0x27]"

definition domain_of :: "string \<Rightarrow> string" where
  "domain_of email = lower (last (split CHR ''@'' email))"

definition initial_result :: "string \<Rightarrow> bool \<Rightarrow> validation_result" where
  "initial_result email smtp_check_enabled =
     \<lparr> is_valid_format = True,
       domain_exists = False,
       is_blacklisted = False,
       smtp_check_status = (if \<not> smtp_check_enabled then ''skipped'' else ''unknown''),
       is_role_based_field = is_role_based email,
       message = [],
       mx_records_field = None \<rparr>"

text \<open>Step 5 of \<open>validate_email\<close>: the result after the SMTP check, before the default message.\<close>

definition smtp_step :: "string \<Rightarrow> string \<times> string \<Rightarrow> validation_result \<Rightarrow> validation_result" where
  "smtp_step email r result =
     (case r of (smtp_status, smtp_message) \<Rightarrow>
        result\<lparr> smtp_check_status := smtp_status,
                message :=
                  (if smtp_status = ''success'' then
                     ''Email '' @ quoted email @ '' is valid and the mailbox exists.''
                   else if smtp_status = ''refused'' then
                     ''Domain exists, but the mail server explicitly rejected the address. It is likely invalid. Detail: '' @ smtp_message
                   else if smtp_status = ''timeout'' then
                     ''Domain exists, but the mail server timed out. Mailbox existence is uncertain.''
                   else
                     ''Validation failed due to an unexpected server error. Detail: '' @ smtp_message) \<rparr>)"

definition default_message :: "validation_result \<Rightarrow> validation_result" where
  "default_message result =
     (if message result = [] then
        result\<lparr> message := ''Basic validation successful. Domain is valid, but mailbox existence was not verified (SMTP check skipped).'' \<rparr>
      else result)"

definition validate_email ::
  "environment \<Rightarrow> string \<Rightarrow> bool \<Rightarrow> (py_exception + validation_result) \<times> call list" where
  "validate_email env email smtp_check_enabled =
     (let domain = domain_of email;
          result = initial_result email smtp_check_enabled
      in
      if domain \<in> BLACKLISTED_DOMAINS env then
        (Inr (result\<lparr> is_blacklisted := True,
                       message := ''The domain '' @ quoted domain @ '' is blacklisted and should not be used.'' \<rparr>),
         [])
      else if \<not> is_valid_tld domain then
        (Inr (result\<lparr> message := ''The domain '' @ quoted domain @ '' does not appear to have a valid Top-Level Domain.'' \<rparr>),
         [])
      else
        (case get_mx_records (env_resolve env) domain of
           Inl e \<Rightarrow> (Inl e, [GetMxRecords domain])
         | Inr None \<Rightarrow>
             (Inr (result\<lparr> message := ''The domain '' @ quoted domain @ '' does not exist (NXDOMAIN).'' \<rparr>),
              [GetMxRecords domain])
         | Inr (Some mx_records) \<Rightarrow>
             if mx_records \<noteq> [] then
               (let result = result\<lparr> domain_exists := True, mx_records_field := Some mx_records \<rparr>
                in
                if smtp_check_enabled then
                  (case check_smtp (env_server env) email mx_records of
                     Inl e \<Rightarrow> (Inl e, [GetMxRecords domain, CheckSmtp email mx_records])
                   | Inr r \<Rightarrow>
                       (Inr (default_message (smtp_step email r result)),
                        [GetMxRecords domain, CheckSmtp email mx_records]))
                else (Inr (default_message result), [GetMxRecords domain]))
             else
               (Inr (result\<lparr> message := ''The domain '' @ quoted domain @ '' exists, but no Mail Exchange (MX) records were found.'' \<rparr>),
                [GetMxRecords domain])))"

section \<open>Scenarios and auxiliary notions\<close>

text \<open>
  The value of \<open>sort_key_of\<close> for a host name that occurs among the answers: the
  preference of the first answer carrying it.
\<close>

definition key_value :: "mx_answer list \<Rightarrow> string \<Rightarrow> int" where
  "key_value mx_answers x = hd [preference mx. mx \<leftarrow> mx_answers, host_of mx = x]"

text \<open>Whether a request called \<open>check_smtp\<close>.\<close>

definition called_check_smtp :: "call list \<Rightarrow> bool" where
  "called_check_smtp calls =
     list_ex (\<lambda>c. case c of CheckSmtp email mx_records \<Rightarrow> True | GetMxRecords domain \<Rightarrow> False) calls"

text \<open>
  The specification's wording for reply codes, not the program's: the success class of
  SMTP replies is the positive-completion range \<open>2yz\<close>.
\<close>

definition spec_success_class :: "int \<Rightarrow> bool" where
  "spec_success_class code = (200 \<le> code \<and> code < 300)"

text \<open>A mail server that behaves the same for every host name and recipient.\<close>

definition session ::
  "py_exception + int \<Rightarrow> py_exception + int \<Rightarrow> py_exception + int \<Rightarrow> py_exception + int
     \<Rightarrow> smtp_server" where
  "session c h m r =
     (\<lambda>mx_server email.
        \<lparr> connect_reply = c, helo_reply = h, mail_reply = m, rcpt_reply = r \<rparr>)"

text \<open>Resolver answers: two hosts out of order, and one host listed under two preferences.\<close>

definition two_answers :: "mx_answer list" where
  "two_answers =
     [\<lparr> exchange = ''mx2.example.com.'', preference = 20 \<rparr>,
      \<lparr> exchange = ''mx1.example.com.'', preference = 10 \<rparr>]"

definition repeated_host_answers :: "mx_answer list" where
  "repeated_host_answers =
     [\<lparr> exchange = ''mail.example.com.'', preference = 30 \<rparr>,
      \<lparr> exchange = ''backup.example.com.'', preference = 20 \<rparr>,
      \<lparr> exchange = ''mail.example.com.'', preference = 10 \<rparr>]"

text \<open>An address with a non-ASCII letter (e with acute accent) in its local part.\<close>

definition accented_address :: string where
  "accented_address = ''us'' @ [CHR 0xE9] @ ''r@example.com''"

text \<open>
  Environments: one whose resolver reports that the name exists without MX records, and
  one whose resolver returns \<open>two_answers\<close>, with a given mail server.
\<close>

definition env_no_route :: environment where
  "env_no_route =
     \<lparr> BLACKLISTED_DOMAINS = {''spam.example''},
       env_resolve = (\<lambda>domain. Inl NoAnswer),
       env_server = session (Inr 220) (Inr 250) (Inr 250) (Inr 250) \<rparr>"

definition env_routed :: "smtp_server \<Rightarrow> environment" where
  "env_routed srv =
     \<lparr> BLACKLISTED_DOMAINS = {''spam.example''},
       env_resolve = (\<lambda>domain. Inr two_answers),
       env_server = srv \<rparr>"

section \<open>Properties of the string primitives\<close>

lemma split_not_Nil: "split c s \<noteq> []"
  by (induction s) (auto split: list.splits)

section \<open>Properties of the TLD check\<close>

lemma tld_loop_fst:
  "fst (tld_loop ts d) \<longleftrightarrow> (\<exists>t \<in> set ts. endswith d t \<and> length t < length d)"
  by (induction ts) (auto simp: Let_def split: prod.splits)

lemma tld_loop_prefix: "\<exists>rest. ts = snd (tld_loop ts d) @ rest"
  by (induction ts) (auto simp: Let_def split: prod.splits)

lemma tld_loop_rejects_all: "\<not> fst (tld_loop ts d) \<Longrightarrow> snd (tld_loop ts d) = ts"
  by (induction ts) (auto simp: Let_def split: prod.splits if_splits)

lemma tld_loop_accepts_last:
  "fst (tld_loop ts d) \<Longrightarrow>
     snd (tld_loop ts d) \<noteq> []
     \<and> endswith d (last (snd (tld_loop ts d)))
     \<and> length (last (snd (tld_loop ts d))) < length d
     \<and> (\<forall>t \<in> set (butlast (snd (tld_loop ts d))). \<not> (endswith d t \<and> length t < length d))"
proof (induction ts)
  case Nil
  then show ?case by simp
next
  case (Cons t ts)
  show ?case
  proof (cases "endswith d t \<and> length t < length d")
    case True
    then show ?thesis by (auto simp: Let_def)
  next
    case False
    then have s: "tld_loop (t # ts) d = (fst (tld_loop ts d), t # snd (tld_loop ts d))"
      by (auto simp: Let_def split: prod.splits)
    then have "fst (tld_loop ts d)" using Cons.prems by simp
    from Cons.IH [OF this] show ?thesis using s False by auto
  qed
qed

lemma set_sorted_tlds: "set (sorted_tlds tlds) = set tlds"
  by (simp add: sorted_tlds_def)

lemma is_valid_tld_from_iff:
  "is_valid_tld_from tlds d \<longleftrightarrow> (\<exists>t \<in> set tlds. endswith d t \<and> length t < length d)"
  by (simp add: is_valid_tld_from_def is_valid_tld_tested_def tld_loop_fst set_sorted_tlds)

lemma is_valid_tld_any_order:
  "set tlds = set VALID_TLDS \<Longrightarrow> is_valid_tld_from tlds d = is_valid_tld d"
  by (simp add: is_valid_tld_def is_valid_tld_from_iff)

lemma sorted_tlds_longest_first:
  "sorted_wrt (\<lambda>a b. length b \<le> length a) (sorted_tlds tlds)"
proof -
  have "sorted (map (\<lambda>tld. - int (length tld)) (sorted_tlds tlds))"
    unfolding sorted_tlds_def by (rule sorted_sort_key)
  then show ?thesis
    by (simp add: sorted_map sorted_wrt_iff_nth_less)
qed

lemma is_valid_tld_iff:
  "is_valid_tld d \<longleftrightarrow> (\<exists>t \<in> set VALID_TLDS. endswith d t \<and> length t < length d)"
  by (simp add: is_valid_tld_def is_valid_tld_from_iff)

lemma bare_suffix_rejected: "d \<in> set VALID_TLDS \<Longrightarrow> \<not> is_valid_tld d"
  by (auto simp: is_valid_tld_iff VALID_TLDS_def endswith_def)

lemma bare_com_rejected: "\<not> is_valid_tld ''.com''"
  by (simp add: is_valid_tld_iff VALID_TLDS_def endswith_def)

lemma example_com_accepted: "is_valid_tld ''example.com''"
  by (simp add: is_valid_tld_iff VALID_TLDS_def endswith_def)

lemma example_zzz_rejected: "\<not> is_valid_tld ''example.zzz''"
  by (simp add: is_valid_tld_iff VALID_TLDS_def endswith_def)

text \<open>The candidates tested on a domain, against the longest-first ordering.\<close>

lemma tested_longest_first:
  "\<exists>rest. sorted_tlds tlds = snd (is_valid_tld_tested tlds d) @ rest
     \<and> sorted_wrt (\<lambda>a b. length b \<le> length a) (snd (is_valid_tld_tested tlds d) @ rest)"
  using tld_loop_prefix [of "sorted_tlds tlds" d] sorted_tlds_longest_first [of tlds]
  by (auto simp: is_valid_tld_tested_def)

lemma accepted_at_longest_match:
  assumes "is_valid_tld_from tlds d"
  shows "snd (is_valid_tld_tested tlds d) \<noteq> []
       \<and> endswith d (last (snd (is_valid_tld_tested tlds d)))
       \<and> length (last (snd (is_valid_tld_tested tlds d))) < length d
       \<and> (\<forall>t \<in> set tlds. endswith d t \<and> length t < length d
             \<longrightarrow> length t \<le> length (last (snd (is_valid_tld_tested tlds d))))"
proof -
  let ?tested = "snd (is_valid_tld_tested tlds d)"
  have f: "fst (tld_loop (sorted_tlds tlds) d)"
    using assms by (simp add: is_valid_tld_from_def is_valid_tld_tested_def)
  have a: "?tested \<noteq> []" "endswith d (last ?tested)" "length (last ?tested) < length d"
    "\<forall>t \<in> set (butlast ?tested). \<not> (endswith d t \<and> length t < length d)"
    using tld_loop_accepts_last [OF f] by (simp_all add: is_valid_tld_tested_def)
  obtain rest where r: "sorted_tlds tlds = ?tested @ rest"
    "sorted_wrt (\<lambda>a b. length b \<le> length a) (?tested @ rest)"
    using tested_longest_first [of tlds d] by blast
  have "length t \<le> length (last ?tested)"
    if t: "t \<in> set tlds" "endswith d t \<and> length t < length d" for t
  proof -
    have "t \<in> set (?tested @ rest)" using t(1) r(1) set_sorted_tlds [of tlds] by simp
    moreover have "?tested = butlast ?tested @ [last ?tested]" using a(1) by simp
    ultimately have "t \<in> set (butlast ?tested) \<or> t = last ?tested \<or> t \<in> set rest"
      by (metis Un_iff append_butlast_last_id a(1) set_append set_ConsD empty_iff empty_set)
    moreover have "t \<notin> set (butlast ?tested)" using a(4) t(2) by blast
    moreover have "length t \<le> length (last ?tested)" if "t \<in> set rest"
      using r(2) that a(1) by (auto simp: sorted_wrt_append)
    ultimately show ?thesis by auto
  qed
  then show ?thesis using a by blast
qed

text \<open>
  C5. Whatever order the set of recognised suffixes is enumerated in, and for every
  domain: the TLD check accepts the domain exactly when it ends with a recognised suffix
  that is shorter than the domain itself. So a domain that is a bare recognised suffix is
  rejected, and so is a domain that ends with no recognised suffix; \<open>.com\<close> alone is
  rejected, \<open>example.com\<close> accepted, \<open>example.zzz\<close> rejected. The candidates the check
  tests are an initial part of the recognised suffixes in order of non-increasing length;
  a rejected domain has been tested against all of them, and an accepted domain is
  accepted at the first candidate that fits, which no other fitting candidate exceeds in
  length.
\<close>

theorem is_valid_tld_longest_first:
  assumes "set tlds = set VALID_TLDS"
  shows "(is_valid_tld_from tlds d \<longleftrightarrow>
            (\<exists>t \<in> set VALID_TLDS. endswith d t \<and> length t < length d))
       \<and> (d \<in> set VALID_TLDS \<longrightarrow> \<not> is_valid_tld_from tlds d)
       \<and> ((\<forall>t \<in> set VALID_TLDS. \<not> endswith d t) \<longrightarrow> \<not> is_valid_tld_from tlds d)
       \<and> \<not> is_valid_tld_from tlds ''.com''
       \<and> is_valid_tld_from tlds ''example.com''
       \<and> \<not> is_valid_tld_from tlds ''example.zzz''
       \<and> is_valid_tld_from tlds d = fst (is_valid_tld_tested tlds d)
       \<and> (\<exists>rest. sorted_tlds tlds = snd (is_valid_tld_tested tlds d) @ rest
             \<and> sorted_wrt (\<lambda>a b. length b \<le> length a) (snd (is_valid_tld_tested tlds d) @ rest)
             \<and> set (snd (is_valid_tld_tested tlds d) @ rest) = set VALID_TLDS)
       \<and> (\<not> is_valid_tld_from tlds d \<longrightarrow> snd (is_valid_tld_tested tlds d) = sorted_tlds tlds)
       \<and> (is_valid_tld_from tlds d \<longrightarrow>
             snd (is_valid_tld_tested tlds d) \<noteq> []
             \<and> endswith d (last (snd (is_valid_tld_tested tlds d)))
             \<and> length (last (snd (is_valid_tld_tested tlds d))) < length d
             \<and> (\<forall>t \<in> set VALID_TLDS. endswith d t \<and> length t < length d
                   \<longrightarrow> length t \<le> length (last (snd (is_valid_tld_tested tlds d)))))"
proof -
  have 1: "is_valid_tld_from tlds d \<longleftrightarrow>
            (\<exists>t \<in> set VALID_TLDS. endswith d t \<and> length t < length d)"
    using assms by (simp add: is_valid_tld_from_iff)
  have 2: "d \<in> set VALID_TLDS \<longrightarrow> \<not> is_valid_tld_from tlds d"
    using bare_suffix_rejected [of d] is_valid_tld_any_order [OF assms] by simp
  have 3: "(\<forall>t \<in> set VALID_TLDS. \<not> endswith d t) \<longrightarrow> \<not> is_valid_tld_from tlds d"
    using 1 by blast
  have 4: "\<not> is_valid_tld_from tlds ''.com''" "is_valid_tld_from tlds ''example.com''"
    "\<not> is_valid_tld_from tlds ''example.zzz''"
    using is_valid_tld_any_order [OF assms] bare_com_rejected example_com_accepted
      example_zzz_rejected by simp_all
  have 5: "is_valid_tld_from tlds d = fst (is_valid_tld_tested tlds d)"
    by (simp add: is_valid_tld_from_def)
  have 6: "\<exists>rest. sorted_tlds tlds = snd (is_valid_tld_tested tlds d) @ rest
             \<and> sorted_wrt (\<lambda>a b. length b \<le> length a) (snd (is_valid_tld_tested tlds d) @ rest)
             \<and> set (snd (is_valid_tld_tested tlds d) @ rest) = set VALID_TLDS"
    using tested_longest_first [of tlds d] set_sorted_tlds [of tlds] assms by metis
  have 7: "\<not> is_valid_tld_from tlds d \<longrightarrow> snd (is_valid_tld_tested tlds d) = sorted_tlds tlds"
    using tld_loop_rejects_all [of "sorted_tlds tlds" d]
    by (simp add: is_valid_tld_from_def is_valid_tld_tested_def)
  have 8: "is_valid_tld_from tlds d \<longrightarrow>
             snd (is_valid_tld_tested tlds d) \<noteq> []
             \<and> endswith d (last (snd (is_valid_tld_tested tlds d)))
             \<and> length (last (snd (is_valid_tld_tested tlds d))) < length d
             \<and> (\<forall>t \<in> set VALID_TLDS. endswith d t \<and> length t < length d
                   \<longrightarrow> length t \<le> length (last (snd (is_valid_tld_tested tlds d))))"
    using accepted_at_longest_match [of tlds d] assms by simp
  show ?thesis using 1 2 3 4 5 6 7 8 by blast
qed

theorem is_valid_tld_longest_first_witness:
  "set (rev VALID_TLDS) = set VALID_TLDS
   \<and> ''.info'' \<in> set VALID_TLDS
   \<and> \<not> is_valid_tld_from (rev VALID_TLDS) ''.info''
   \<and> is_valid_tld_from (rev VALID_TLDS) ''example.com''
   \<and> \<not> is_valid_tld_from (rev VALID_TLDS) ''example.zzz''
   \<and> is_valid_tld_tested (rev VALID_TLDS) ''example.com''
       = (True, [''.info'', ''.xyz'', ''.app'', ''.biz'', ''.dev'', ''.gov'', ''.edu'', ''.org'',
                 ''.net'', ''.com''])
   \<and> is_valid_tld_tested (rev VALID_TLDS) ''example.zzz''
       = (False, [''.info'', ''.xyz'', ''.app'', ''.biz'', ''.dev'', ''.gov'', ''.edu'', ''.org'',
                  ''.net'', ''.com'', ''.es'', ''.mx'', ''.io'', ''.co''])
   \<and> sorted_tlds (rev VALID_TLDS) =
       [''.info'', ''.xyz'', ''.app'', ''.biz'', ''.dev'', ''.gov'', ''.edu'', ''.org'',
        ''.net'', ''.com'', ''.es'', ''.mx'', ''.io'', ''.co'']"
proof -
  have h: "set (rev VALID_TLDS) = set VALID_TLDS" by simp
  have i: "''.info'' \<in> set VALID_TLDS" by (simp add: VALID_TLDS_def)
  have s: "sorted_tlds (rev VALID_TLDS) =
       [''.info'', ''.xyz'', ''.app'', ''.biz'', ''.dev'', ''.gov'', ''.edu'', ''.org'',
        ''.net'', ''.com'', ''.es'', ''.mx'', ''.io'', ''.co'']"
    by (simp add: sorted_tlds_def VALID_TLDS_def)
  have t: "is_valid_tld_tested (rev VALID_TLDS) ''example.com''
       = (True, [''.info'', ''.xyz'', ''.app'', ''.biz'', ''.dev'', ''.gov'', ''.edu'', ''.org'',
                 ''.net'', ''.com''])"
    by (simp add: is_valid_tld_tested_def s endswith_def)
  have u: "is_valid_tld_tested (rev VALID_TLDS) ''example.zzz''
       = (False, [''.info'', ''.xyz'', ''.app'', ''.biz'', ''.dev'', ''.gov'', ''.edu'', ''.org'',
                  ''.net'', ''.com'', ''.es'', ''.mx'', ''.io'', ''.co''])"
    by (simp add: is_valid_tld_tested_def s endswith_def)
  have a: "\<not> is_valid_tld_from (rev VALID_TLDS) ''.info''"
    using is_valid_tld_longest_first [OF h, of "''.info''"] i by blast
  have b: "is_valid_tld_from (rev VALID_TLDS) ''example.com''"
    using is_valid_tld_longest_first [OF h, of "''example.com''"] by blast
  have c: "\<not> is_valid_tld_from (rev VALID_TLDS) ''example.zzz''"
    using is_valid_tld_longest_first [OF h, of "''example.zzz''"] by blast
  show ?thesis
    using h i a b c s t u by blast
qed

section \<open>Properties of MX resolution\<close>

lemma collect_all_Inr:
  "(\<And>x. x \<in> set xs \<Longrightarrow> f x = Inr (g x)) \<Longrightarrow> collect (map f xs) = Inr (map g xs)"
  by (induction xs) auto

lemma sort_key_of_member:
  "a \<in> set mx_answers \<Longrightarrow>
     sort_key_of mx_answers (host_of a) = Inr (key_value mx_answers (host_of a))"
  unfolding sort_key_of_def key_value_def
  by (auto split: list.splits simp: filter_empty_conv)

lemma insort_key_map:
  "insort_key f (g x) (map g xs) = map g (insort_key (\<lambda>y. f (g y)) x xs)"
  by (induction xs) auto

lemma sort_key_map:
  "sort_key f (map g xs) = map g (sort_key (\<lambda>y. f (g y)) xs)"
  by (induction xs) (auto simp: insort_key_map)

lemma insort_key_cong_set:
  "(\<And>y. y \<in> insert x (set xs) \<Longrightarrow> f y = g y) \<Longrightarrow> insort_key f x xs = insort_key g x xs"
  by (induction xs) auto

lemma sort_key_cong_set:
  "(\<And>y. y \<in> set xs \<Longrightarrow> f y = g y) \<Longrightarrow> sort_key f xs = sort_key g xs"
proof (induction xs)
  case Nil
  then show ?case by simp
next
  case (Cons x xs)
  have "sort_key f xs = sort_key g xs" using Cons by simp
  moreover have "insort_key f x (sort_key g xs) = insort_key g x (sort_key g xs)"
    by (rule insort_key_cong_set) (use Cons.prems in auto)
  ultimately show ?case by simp
qed

text \<open>The \<open>try\<close> body never fails once the resolver has answered: every key exists.\<close>

lemma mx_lookup_body_answers:
  assumes "rslv domain = Inr mx_answers"
  shows "mx_lookup_body rslv domain =
           Inr (map host_of (sort_key (\<lambda>a. key_value mx_answers (host_of a)) mx_answers))"
proof -
  have k: "collect (map (\<lambda>a. sort_key_of mx_answers (host_of a)) mx_answers) =
             Inr (map (\<lambda>a. key_value mx_answers (host_of a)) mx_answers)"
    by (rule collect_all_Inr) (simp add: sort_key_of_member)
  have z: "zip (map host_of mx_answers) (map (\<lambda>a. key_value mx_answers (host_of a)) mx_answers)
             = map (\<lambda>a. (host_of a, key_value mx_answers (host_of a))) mx_answers"
    by (simp add: zip_map_map zip_same_conv_map)
  show ?thesis
    using assms by (simp add: mx_lookup_body_def sort_by_key_def k z sort_key_map comp_def)
qed

lemma key_value_distinct:
  "distinct (map host_of mx_answers) \<Longrightarrow> a \<in> set mx_answers \<Longrightarrow>
     key_value mx_answers (host_of a) = preference a"
proof (induction mx_answers)
  case Nil
  then show ?case by simp
next
  case (Cons b bs)
  show ?case
  proof (cases "a = b")
    case True
    then show ?thesis by (simp add: key_value_def)
  next
    case False
    then have "a \<in> set bs" using Cons.prems by simp
    moreover then have "host_of b \<noteq> host_of a" using Cons.prems by force
    ultimately show ?thesis using Cons by (simp add: key_value_def)
  qed
qed

text \<open>
  When no host name occurs twice among the answers, the hosts come out in ascending
  preference, ties in the resolver's order (\<open>sort_key\<close> is a stable insertion sort).
\<close>

lemma mx_lookup_body_distinct:
  assumes "rslv domain = Inr mx_answers" and "distinct (map host_of mx_answers)"
  shows "mx_lookup_body rslv domain = Inr (map host_of (sort_key preference mx_answers))"
proof -
  have "sort_key (\<lambda>a. key_value mx_answers (host_of a)) mx_answers
          = sort_key preference mx_answers"
    by (rule sort_key_cong_set) (simp add: key_value_distinct assms(2))
  then show ?thesis
    using mx_lookup_body_answers [of rslv domain mx_answers] assms(1) by simp
qed

lemma get_mx_records_distinct:
  assumes "rslv domain = Inr mx_answers" and "distinct (map host_of mx_answers)"
  shows "get_mx_records rslv domain = Inr (Some (map host_of (sort_key preference mx_answers)))"
  using mx_lookup_body_distinct [of rslv domain mx_answers] assms
  by (simp add: get_mx_records_def sync_mx_lookup_def)

lemma get_mx_records_two_answers:
  "get_mx_records (\<lambda>domain. Inr two_answers) ''example.com''
     = Inr (Some [''mx1.example.com'', ''mx2.example.com''])"
  by (simp add: get_mx_records_def sync_mx_lookup_def mx_lookup_body_def sort_by_key_def
      sort_key_of_def host_of_def rstrip_dot_def two_answers_def)

lemma get_mx_records_returns: "\<exists>v. get_mx_records rslv domain = Inr v"
  by (simp add: get_mx_records_def sync_mx_lookup_def split: sum.splits)

text \<open>
  C6. The resolver answers \<open>mail.example.com\<close> with preference 30, \<open>backup.example.com\<close>
  with preference 20 and \<open>mail.example.com\<close> again with preference 10. The sort key of a
  host name is the preference of the first answer carrying that name, so both entries of
  \<open>mail.example.com\<close> are sorted under 30 and the returned list starts with the backup
  host, whereas the answers in ascending preference start with \<open>mail.example.com\<close>.
\<close>

theorem get_mx_records_repeated_host:
  "get_mx_records (\<lambda>domain. Inr repeated_host_answers) ''example.com''
     = Inr (Some [''backup.example.com'', ''mail.example.com'', ''mail.example.com''])
   \<and> map host_of (sort_key preference repeated_host_answers)
     = [''mail.example.com'', ''backup.example.com'', ''mail.example.com'']"
  by (simp add: get_mx_records_def sync_mx_lookup_def mx_lookup_body_def sort_by_key_def
      sort_key_of_def host_of_def rstrip_dot_def repeated_host_answers_def)

text \<open>
  C7. MX resolution always returns a value, never an exception: NXDOMAIN gives \<open>None\<close>
  (Absent), a response without MX records (the resolver's NoAnswer, or an empty answer
  list) gives the empty list (NoRoute), and every other exception gives \<open>None\<close> (Absent).
\<close>

theorem get_mx_records_classifies:
  "(\<exists>v. get_mx_records rslv domain = Inr v)
   \<and> (rslv domain = Inl NXDOMAIN \<longrightarrow> get_mx_records rslv domain = Inr None)
   \<and> (rslv domain = Inl NoAnswer \<longrightarrow> get_mx_records rslv domain = Inr (Some []))
   \<and> (rslv domain = Inr [] \<longrightarrow> get_mx_records rslv domain = Inr (Some []))
   \<and> (\<forall>e. rslv domain = Inl e \<and> e \<noteq> NXDOMAIN \<and> e \<noteq> NoAnswer
          \<longrightarrow> get_mx_records rslv domain = Inr None)"
  using get_mx_records_returns [of rslv domain]
  by (auto simp: get_mx_records_def sync_mx_lookup_def mx_lookup_body_def sort_by_key_def)

theorem get_mx_records_classifies_witness:
  "get_mx_records (\<lambda>domain. Inl NXDOMAIN) ''example.com'' = Inr None
   \<and> get_mx_records (\<lambda>domain. Inl NoAnswer) ''example.com'' = Inr (Some [])
   \<and> get_mx_records (\<lambda>domain. Inr []) ''example.com'' = Inr (Some [])
   \<and> get_mx_records (\<lambda>domain. Inl (OtherException ''LifetimeTimeout'')) ''example.com''
       = Inr None"
  using get_mx_records_classifies [of "\<lambda>domain. Inl NXDOMAIN" "''example.com''"]
    get_mx_records_classifies [of "\<lambda>domain. Inl NoAnswer" "''example.com''"]
    get_mx_records_classifies [of "\<lambda>domain. Inr []" "''example.com''"]
    get_mx_records_classifies
      [of "\<lambda>domain. Inl (OtherException ''LifetimeTimeout'')" "''example.com''"]
  by simp

section \<open>Properties of the SMTP probe\<close>

lemma str_int_examples:
  "str_int 251 = ''251''" "str_int 450 = ''450''" "str_int 0 = ''0''" "str_int (- 1) = ''-1''"
  by (simp_all add: str_int_def digits.simps)

lemma check_smtp_status:
  "check_smtp srv email (mx_server # rest) = Inr (st, msg) \<Longrightarrow>
     st = ''success'' \<or> st = ''refused'' \<or> st = ''timeout'' \<or> st = ''unknown''"
  by (auto simp: check_smtp_def smtp_dialogue_def split: sum.splits if_splits)

lemma check_smtp_returns:
  "mx_records \<noteq> [] \<Longrightarrow> \<exists>st msg. check_smtp srv email mx_records = Inr (st, msg)"
  by (cases mx_records)
     (auto simp: check_smtp_def smtp_dialogue_def split: sum.splits if_splits)

lemma smtp_dialogue_status:
  "smtp_dialogue s = Inr (st, msg) \<Longrightarrow> st = ''success'' \<or> st = ''refused''"
  by (auto simp: smtp_dialogue_def split: sum.splits if_splits)

text \<open>
  The probe answers \<open>unknown\<close> exactly when its dialogue raised an exception that is not
  an \<open>OSError\<close>: the one case left to the last handler.
\<close>

lemma check_smtp_unknown_iff:
  assumes "check_smtp srv email (mx_server # rest) = Inr (st, msg)"
  shows "st = ''unknown'' \<longleftrightarrow>
           (\<exists>e. smtp_dialogue (srv mx_server email) = Inl e \<and> \<not> is_OSError e)"
proof (cases "smtp_dialogue (srv mx_server email)")
  case (Inl e)
  then show ?thesis using assms by (cases e) (auto simp: check_smtp_def)
next
  case (Inr p)
  then have "p = (st, msg)" using assms by (simp add: check_smtp_def)
  then show ?thesis using Inr smtp_dialogue_status [of "srv mx_server email" st msg] by auto
qed

text \<open>
  The handlers of \<open>check_smtp\<close>, by the exception the dialogue raised: timeouts give
  \<open>timeout\<close>, \<open>SMTPConnectError\<close> gives \<open>refused\<close>, every other \<open>OSError\<close> gives
  \<open>timeout\<close>, anything else gives \<open>unknown\<close>.
\<close>

lemma check_smtp_handlers:
  assumes "smtp_dialogue (srv mx_server email) = Inl e"
  shows "fst (projr (check_smtp srv email (mx_server # rest))) =
           (if e = SocketTimeout \<or> e = TimeoutError then ''timeout''
            else if e = SMTPConnectError then ''refused''
            else if is_OSError e then ''timeout''
            else ''unknown'')"
  using assms by (cases e) (simp_all add: check_smtp_def)

text \<open>
  C4, as amended. Once the connection and the greeting have gone through: a reply to
  MAIL FROM other than 250 (so in particular every non-2xx reply) gives \<open>refused\<close> for the
  sender; a reply to RCPT TO of exactly 250 gives \<open>success\<close>; 550 or 553 gives \<open>refused\<close>
  with the mailbox-does-not-exist message; every other code, the 2xx codes other than 250
  included, gives \<open>refused\<close> with a message naming the code.
\<close>

theorem check_smtp_reply_codes:
  assumes "connect_reply (srv mx_server email) = Inr c0"
      and "helo_reply (srv mx_server email) = Inr c1"
      and "mail_reply (srv mx_server email) = Inr mail_code"
  shows "(mail_code \<noteq> 250 \<longrightarrow>
            check_smtp srv email (mx_server # rest) =
              Inr (''refused'', ''Server refused MAIL FROM command.''))
       \<and> (mail_code = 250 \<and> rcpt_reply (srv mx_server email) = Inr 250 \<longrightarrow>
            check_smtp srv email (mx_server # rest) =
              Inr (''success'',
                   ''The mail server confirmed the email address exists (Code 250).''))
       \<and> (\<forall>code. mail_code = 250 \<and> rcpt_reply (srv mx_server email) = Inr code
              \<and> (code = 550 \<or> code = 553) \<longrightarrow>
            check_smtp srv email (mx_server # rest) =
              Inr (''refused'',
                   ''Mailbox does not exist (550/553) or server explicitly rejected the address.''))
       \<and> (\<forall>code. mail_code = 250 \<and> rcpt_reply (srv mx_server email) = Inr code
              \<and> code \<noteq> 250 \<and> code \<noteq> 550 \<and> code \<noteq> 553 \<longrightarrow>
            check_smtp srv email (mx_server # rest) =
              Inr (''refused'',
                   ''Server rejected the recipient with code '' @ str_int code @ ''.''))"
  using assms by (auto simp: check_smtp_def smtp_dialogue_def)

theorem check_smtp_reply_codes_witness:
  "check_smtp (session (Inr 220) (Inr 250) (Inr 451) (Inr 250)) ''user@example.com''
       [''mx1.example.com'', ''mx2.example.com'']
     = Inr (''refused'', ''Server refused MAIL FROM command.'')
   \<and> check_smtp (session (Inr 220) (Inr 250) (Inr 250) (Inr 250)) ''user@example.com''
       [''mx1.example.com'', ''mx2.example.com'']
     = Inr (''success'', ''The mail server confirmed the email address exists (Code 250).'')
   \<and> check_smtp (session (Inr 220) (Inr 250) (Inr 250) (Inr 550)) ''user@example.com''
       [''mx1.example.com'', ''mx2.example.com'']
     = Inr (''refused'',
            ''Mailbox does not exist (550/553) or server explicitly rejected the address.'')
   \<and> check_smtp (session (Inr 220) (Inr 250) (Inr 250) (Inr 450)) ''user@example.com''
       [''mx1.example.com'', ''mx2.example.com'']
     = Inr (''refused'', ''Server rejected the recipient with code 450.'')"
proof -
  have s: "connect_reply (session (Inr 220) (Inr 250) m r h e) = Inr 220"
    "helo_reply (session (Inr 220) (Inr 250) m r h e) = Inr 250"
    "mail_reply (session (Inr 220) (Inr 250) m r h e) = m"
    "rcpt_reply (session (Inr 220) (Inr 250) m r h e) = r" for m r h e
    by (simp_all add: session_def)
  show ?thesis
    using check_smtp_reply_codes
        [of "session (Inr 220) (Inr 250) (Inr 451) (Inr 250)" "''mx1.example.com''"
            "''user@example.com''" 220 250 451 "[''mx2.example.com'']"]
      check_smtp_reply_codes
        [of "session (Inr 220) (Inr 250) (Inr 250) (Inr 250)" "''mx1.example.com''"
            "''user@example.com''" 220 250 250 "[''mx2.example.com'']"]
      check_smtp_reply_codes
        [of "session (Inr 220) (Inr 250) (Inr 250) (Inr 550)" "''mx1.example.com''"
            "''user@example.com''" 220 250 250 "[''mx2.example.com'']"]
      check_smtp_reply_codes
        [of "session (Inr 220) (Inr 250) (Inr 250) (Inr 450)" "''mx1.example.com''"
            "''user@example.com''" 220 250 250 "[''mx2.example.com'']"]
    by (simp add: s str_int_examples)
qed

text \<open>
  C4, as stated, fails: 251 is a success-class (2xx) reply, and a server that answers
  RCPT TO with 251 is reported as \<open>refused\<close>.
\<close>

theorem rcpt_251_refused_counterexample:
  "spec_success_class 251
   \<and> check_smtp (session (Inr 220) (Inr 250) (Inr 250) (Inr 251)) ''user@example.com''
       [''mx1.example.com'']
     = Inr (''refused'', ''Server rejected the recipient with code 251.'')"
  by (simp add: spec_success_class_def check_smtp_def smtp_dialogue_def session_def
      str_int_examples)

text \<open>
  C8. The mail host refuses the TCP connection: \<open>connect\<close> raises
  \<open>ConnectionRefusedError\<close>. It is not an \<open>SMTPConnectError\<close>, it is an \<open>OSError\<close>, so the
  handler for \<open>socket.error\<close> takes it and the probe answers \<open>timeout\<close> with the
  unexpected-disconnect message, not \<open>refused\<close> with the could-not-connect message.
\<close>

theorem connection_refused_gives_timeout:
  "check_smtp (session (Inl ConnectionRefusedError) (Inr 250) (Inr 250) (Inr 250))
       ''user@example.com'' [''mx1.example.com'']
     = Inr (''timeout'',
            ''The mail server or network unexpectedly disconnected during validation. Status is uncertain.'')"
  by (simp add: check_smtp_def smtp_dialogue_def session_def)

section \<open>Properties of the validation endpoint\<close>

lemma default_message_fields [simp]:
  "is_valid_format (default_message r) = is_valid_format r"
  "domain_exists (default_message r) = domain_exists r"
  "is_blacklisted (default_message r) = is_blacklisted r"
  "smtp_check_status (default_message r) = smtp_check_status r"
  "mx_records_field (default_message r) = mx_records_field r"
  by (simp_all add: default_message_def)

lemma smtp_step_fields [simp]:
  "is_valid_format (smtp_step email p r) = is_valid_format r"
  "domain_exists (smtp_step email p r) = domain_exists r"
  "is_blacklisted (smtp_step email p r) = is_blacklisted r"
  "smtp_check_status (smtp_step email p r) = fst p"
  "mx_records_field (smtp_step email p r) = mx_records_field r"
  by (simp_all add: smtp_step_def split: prod.splits)

lemma initial_result_fields [simp]:
  "is_valid_format (initial_result email enabled) = True"
  "domain_exists (initial_result email enabled) = False"
  "is_blacklisted (initial_result email enabled) = False"
  "smtp_check_status (initial_result email enabled) = (if enabled then ''unknown'' else ''skipped'')"
  "mx_records_field (initial_result email enabled) = None"
  "message (initial_result email enabled) = []"
  by (simp_all add: initial_result_def)

lemma domain_of_user_example: "domain_of ''user@example.com'' = ''example.com''"
  by code_simp

lemma domain_of_mixed_case: "domain_of ''User@Spam.Example'' = ''spam.example''"
  by code_simp

lemma is_role_based_user: "is_role_based ''user@example.com'' = False"
  by code_simp

lemma is_role_based_tagged: "is_role_based ''admin+test@example.com'' = True"
  by code_simp

text \<open>The endpoint returns a result for every request: no stage lets an exception through.\<close>

lemma validate_email_returns:
  "\<exists>r calls. validate_email env email enabled = (Inr r, calls)"
  using get_mx_records_returns [of "env_resolve env" "domain_of email"]
    check_smtp_returns [of _ "env_server env" email]
  by (fastforce simp: validate_email_def Let_def split: option.splits sum.splits)

text \<open>\<open>domain_exists\<close> is set exactly when the resolver stage is reached and yields hosts.\<close>

lemma domain_exists_iff_routed:
  "\<exists>r calls. validate_email env email enabled = (Inr r, calls)
     \<and> (domain_exists r \<longleftrightarrow>
          domain_of email \<notin> BLACKLISTED_DOMAINS env \<and> is_valid_tld (domain_of email)
          \<and> (\<exists>h t. get_mx_records (env_resolve env) (domain_of email) = Inr (Some (h # t))))"
proof -
  obtain v where v: "get_mx_records (env_resolve env) (domain_of email) = Inr v"
    using get_mx_records_returns by blast
  show ?thesis
  proof (cases "\<exists>h t. v = Some (h # t)")
    case True
    then obtain h t where m: "v = Some (h # t)" by blast
    obtain st msg where "check_smtp (env_server env) email (h # t) = Inr (st, msg)"
      using check_smtp_returns [of "h # t"] by blast
    then show ?thesis using v m
      by (auto simp: validate_email_def Let_def)
  next
    case False
    then have "v = None \<or> v = Some []"
      by (cases v; cases "the v") auto
    then show ?thesis using v
      by (auto simp: validate_email_def Let_def)
  qed
qed

text \<open>
  C1. The resolver reports that \<open>example.com\<close> exists and has no MX records (NoRoute).
  The returned result has \<open>domain_exists = False\<close>, next to a message saying that the
  domain exists.
\<close>

theorem no_route_domain_exists_false:
  "validate_email env_no_route ''user@example.com'' True =
     (Inr \<lparr> is_valid_format = True,
            domain_exists = False,
            is_blacklisted = False,
            smtp_check_status = ''unknown'',
            is_role_based_field = False,
            message = ''The domain '' @ quoted ''example.com''
                        @ '' exists, but no Mail Exchange (MX) records were found.'',
            mx_records_field = None \<rparr>,
      [GetMxRecords ''example.com''])"
  by (simp add: validate_email_def Let_def domain_of_user_example env_no_route_def
      example_com_accepted get_mx_records_def sync_mx_lookup_def mx_lookup_body_def
      initial_result_def is_role_based_user)

text \<open>
  C2, as amended. The returned status is one of \<open>success\<close>, \<open>refused\<close>, \<open>timeout\<close>,
  \<open>skipped\<close> and \<open>unknown\<close>, and it is \<open>skipped\<close> exactly when the SMTP check is disabled.
  \<open>check_smtp\<close> is called exactly when the check is enabled, the domain is neither
  blacklisted nor of invalid TLD shape and the resolver stage yields at least one host;
  the status is then the one \<open>check_smtp\<close> returned. The status is \<open>unknown\<close> exactly when
  the check is enabled and either \<open>check_smtp\<close> was not called or its SMTP dialogue raised
  an exception that is not an \<open>OSError\<close>; in every other case it is \<open>success\<close>, \<open>refused\<close>,
  \<open>timeout\<close> or \<open>skipped\<close>.
\<close>

theorem smtp_check_status_values:
  "\<exists>r calls. validate_email env email enabled = (Inr r, calls)
     \<and> smtp_check_status r \<in> {''success'', ''refused'', ''timeout'', ''skipped'', ''unknown''}
     \<and> (smtp_check_status r = ''skipped'' \<longleftrightarrow> \<not> enabled)
     \<and> (called_check_smtp calls \<longleftrightarrow>
          enabled \<and> domain_of email \<notin> BLACKLISTED_DOMAINS env \<and> is_valid_tld (domain_of email)
          \<and> (\<exists>h t. get_mx_records (env_resolve env) (domain_of email) = Inr (Some (h # t))))
     \<and> (smtp_check_status r = ''unknown'' \<longleftrightarrow>
          enabled
          \<and> (\<not> called_check_smtp calls
               \<or> (\<exists>mx_server rest e.
                     CheckSmtp email (mx_server # rest) \<in> set calls
                     \<and> smtp_dialogue (env_server env mx_server email) = Inl e
                     \<and> \<not> is_OSError e)))
     \<and> (smtp_check_status r \<noteq> ''unknown'' \<longrightarrow>
          smtp_check_status r \<in> {''success'', ''refused'', ''timeout'', ''skipped''})
     \<and> (\<forall>e m. CheckSmtp e m \<in> set calls \<longrightarrow>
            (\<exists>msg. check_smtp (env_server env) e m = Inr (smtp_check_status r, msg)))"
proof -
  obtain v where v: "get_mx_records (env_resolve env) (domain_of email) = Inr v"
    using get_mx_records_returns by blast
  show ?thesis
  proof (cases "domain_of email \<in> BLACKLISTED_DOMAINS env \<or> \<not> is_valid_tld (domain_of email)
                  \<or> v = None \<or> v = Some [] \<or> \<not> enabled")
    case True
    then show ?thesis using v
      by (auto simp: validate_email_def Let_def called_check_smtp_def split: option.splits)
  next
    case False
    then obtain mx_server rest where m: "v = Some (mx_server # rest)"
      by (cases v; cases "the v") auto
    obtain st msg where c: "check_smtp (env_server env) email (mx_server # rest) = Inr (st, msg)"
      using check_smtp_returns [of "mx_server # rest"] by blast
    have r: "validate_email env email enabled =
               (Inr (default_message
                       (smtp_step email (st, msg)
                          ((initial_result email enabled)
                             \<lparr> domain_exists := True,
                               mx_records_field := Some (mx_server # rest) \<rparr>))),
                [GetMxRecords (domain_of email), CheckSmtp email (mx_server # rest)])"
      using False v m c by (simp add: validate_email_def Let_def)
    have u: "st = ''unknown'' \<longleftrightarrow>
               (\<exists>e. smtp_dialogue (env_server env mx_server email) = Inl e \<and> \<not> is_OSError e)"
      using check_smtp_unknown_iff [OF c] .
    have k: "st = ''success'' \<or> st = ''refused'' \<or> st = ''timeout'' \<or> st = ''unknown''"
      using check_smtp_status [OF c] .
    have e: "enabled" "domain_of email \<notin> BLACKLISTED_DOMAINS env" "is_valid_tld (domain_of email)"
      using False by auto
    let ?r = "default_message
                (smtp_step email (st, msg)
                   ((initial_result email enabled)
                      \<lparr> domain_exists := True,
                        mx_records_field := Some (mx_server # rest) \<rparr>))"
    let ?calls = "[GetMxRecords (domain_of email), CheckSmtp email (mx_server # rest)]"
    have s: "smtp_check_status ?r = st" by simp
    have c1: "st \<in> {''success'', ''refused'', ''timeout'', ''skipped'', ''unknown''}"
      using k by auto
    have c2: "(st = ''skipped'') = (\<not> enabled)"
      using k e(1) by auto
    have c3: "called_check_smtp ?calls"
      by (simp add: called_check_smtp_def)
    have c4: "\<exists>h t. get_mx_records (env_resolve env) (domain_of email) = Inr (Some (h # t))"
      using v m by simp
    have c5: "(\<exists>mx_server' rest' e.
                 CheckSmtp email (mx_server' # rest') \<in> set ?calls
                 \<and> smtp_dialogue (env_server env mx_server' email) = Inl e
                 \<and> \<not> is_OSError e)
              \<longleftrightarrow> st = ''unknown''"
      using u by auto
    have c6: "st \<noteq> ''unknown'' \<longrightarrow> st \<in> {''success'', ''refused'', ''timeout'', ''skipped''}"
      using k by auto
    have c7: "\<forall>e m. CheckSmtp e m \<in> set ?calls \<longrightarrow>
                (\<exists>msg'. check_smtp (env_server env) e m = Inr (st, msg'))"
      using c by auto
    show ?thesis
      apply (rule exI [of _ ?r], rule exI [of _ ?calls])
      apply (simp only: s)
      apply (intro conjI)
      subgoal by (rule r)
      subgoal by (rule c1)
      subgoal by (rule c2)
      subgoal using c3 c4 e by blast
      subgoal using c3 c5 e(1) by blast
      subgoal by (rule c6)
      subgoal by (rule c7)
      done
  qed
qed

lemma validate_email_no_route:
  "validate_email env_no_route ''user@example.com'' True = (Inr r, calls) \<Longrightarrow>
     calls = [GetMxRecords ''example.com'']"
  by (auto simp: validate_email_def Let_def domain_of_user_example env_no_route_def
      example_com_accepted get_mx_records_def sync_mx_lookup_def mx_lookup_body_def)

lemma validate_email_routed:
  "domain_of email = ''example.com'' \<Longrightarrow>
   validate_email (env_routed srv) email True = (Inr r, calls) \<Longrightarrow>
     calls = [GetMxRecords ''example.com'',
              CheckSmtp email [''mx1.example.com'', ''mx2.example.com'']]"
  using check_smtp_returns [of "[''mx1.example.com'', ''mx2.example.com'']" srv email]
  by (auto simp: validate_email_def Let_def env_routed_def
      example_com_accepted get_mx_records_two_answers)

lemma domain_of_accented_address: "domain_of accented_address = ''example.com''"
  by code_simp

lemma check_smtp_accepting:
  "check_smtp (session (Inr 220) (Inr 250) (Inr 250) (Inr 250)) ''user@example.com''
       [''mx1.example.com'', ''mx2.example.com'']
     = Inr (''success'', ''The mail server confirmed the email address exists (Code 250).'')"
  by (simp add: check_smtp_def smtp_dialogue_def session_def)

theorem smtp_check_status_values_witness:
  "(\<exists>r calls. validate_email env_no_route ''user@example.com'' True = (Inr r, calls)
       \<and> \<not> called_check_smtp calls \<and> smtp_check_status r = ''unknown'')
   \<and> (\<exists>r calls. validate_email (env_routed (session (Inr 220) (Inr 250) (Inr 250) (Inr 250)))
                    ''user@example.com'' True = (Inr r, calls)
       \<and> CheckSmtp ''user@example.com'' [''mx1.example.com'', ''mx2.example.com''] \<in> set calls
       \<and> smtp_check_status r = ''success'')
   \<and> (\<exists>r calls. validate_email
                    (env_routed (session (Inr 220) (Inr 250) (Inr 250)
                                   (Inl (OtherException ''UnicodeEncodeError''))))
                    accented_address True = (Inr r, calls)
       \<and> called_check_smtp calls \<and> smtp_check_status r = ''unknown'')"
proof -
  let ?accepting = "session (Inr 220) (Inr 250) (Inr 250) (Inr 250)"
  let ?failing = "session (Inr 220) (Inr 250) (Inr 250) (Inl (OtherException ''UnicodeEncodeError''))"
  obtain r calls where a:
    "validate_email env_no_route ''user@example.com'' True = (Inr r, calls)"
    "smtp_check_status r = ''unknown'' \<longleftrightarrow>
       True \<and> (\<not> called_check_smtp calls
         \<or> (\<exists>mx_server rest e.
               CheckSmtp ''user@example.com'' (mx_server # rest) \<in> set calls
               \<and> smtp_dialogue (env_server env_no_route mx_server ''user@example.com'') = Inl e
               \<and> \<not> is_OSError e))"
    using smtp_check_status_values [of env_no_route "''user@example.com''" True] by blast
  have "calls = [GetMxRecords ''example.com'']"
    using validate_email_no_route [OF a(1)] .
  then have n: "\<not> called_check_smtp calls"
    by (simp add: called_check_smtp_def)
  then have 1: "\<not> called_check_smtp calls \<and> smtp_check_status r = ''unknown''"
    using a(2) by blast
  obtain r' calls' where b:
    "validate_email (env_routed ?accepting) ''user@example.com'' True = (Inr r', calls')"
    "\<forall>e m. CheckSmtp e m \<in> set calls' \<longrightarrow>
        (\<exists>msg. check_smtp (env_server (env_routed ?accepting)) e m
                 = Inr (smtp_check_status r', msg))"
    using smtp_check_status_values [of "env_routed ?accepting" "''user@example.com''" True]
    by blast
  have c: "calls' = [GetMxRecords ''example.com'',
              CheckSmtp ''user@example.com'' [''mx1.example.com'', ''mx2.example.com'']]"
    using validate_email_routed [OF domain_of_user_example b(1)] .
  then have "\<exists>msg. check_smtp (env_server (env_routed ?accepting))
                 ''user@example.com'' [''mx1.example.com'', ''mx2.example.com'']
                 = Inr (smtp_check_status r', msg)"
    using b(2) by simp
  then have 2: "smtp_check_status r' = ''success''"
    by (simp add: env_routed_def check_smtp_accepting)
  obtain r'' calls'' where d:
    "validate_email (env_routed ?failing) accented_address True = (Inr r'', calls'')"
    "smtp_check_status r'' = ''unknown'' \<longleftrightarrow>
       True \<and> (\<not> called_check_smtp calls''
         \<or> (\<exists>mx_server rest e.
               CheckSmtp accented_address (mx_server # rest) \<in> set calls''
               \<and> smtp_dialogue (env_server (env_routed ?failing) mx_server accented_address) = Inl e
               \<and> \<not> is_OSError e))"
    using smtp_check_status_values [of "env_routed ?failing" accented_address True] by blast
  have f: "calls'' = [GetMxRecords ''example.com'',
              CheckSmtp accented_address [''mx1.example.com'', ''mx2.example.com'']]"
    using validate_email_routed [OF domain_of_accented_address d(1)] .
  have g: "smtp_dialogue (env_server (env_routed ?failing) ''mx1.example.com'' accented_address)
             = Inl (OtherException ''UnicodeEncodeError'')"
    by (simp add: env_routed_def session_def smtp_dialogue_def)
  have "\<exists>mx_server rest e.
               CheckSmtp accented_address (mx_server # rest) \<in> set calls''
               \<and> smtp_dialogue (env_server (env_routed ?failing) mx_server accented_address) = Inl e
               \<and> \<not> is_OSError e"
    using f g by (intro exI [of _ "''mx1.example.com''"] exI [of _ "[''mx2.example.com'']"]
        exI [of _ "OtherException ''UnicodeEncodeError''"]) simp
  then have 3: "called_check_smtp calls'' \<and> smtp_check_status r'' = ''unknown''"
    using d(2) f by (simp add: called_check_smtp_def)
  show ?thesis using a(1) 1 b(1) c 2 d(1) 3 by auto
qed

text \<open>
  C2, as stated, fails: with the SMTP check enabled, a request for a blacklisted domain
  returns the status \<open>unknown\<close>.
\<close>

theorem smtp_check_status_unknown_counterexample:
  "\<exists>r calls. validate_email env_no_route ''User@Spam.Example'' True = (Inr r, calls)
       \<and> smtp_check_status r = ''unknown''"
  by (simp add: validate_email_def Let_def domain_of_mixed_case env_no_route_def)

text \<open>
  C9. When the domain of the address is in the blacklist, the endpoint returns a result
  with \<open>is_blacklisted = True\<close> and has called neither \<open>get_mx_records\<close> nor \<open>check_smtp\<close>:
  the list of calls is empty, and the outcome is the same under any other resolver and
  any other mail server.
\<close>

theorem blacklisted_is_terminal:
  assumes "domain_of email \<in> BLACKLISTED_DOMAINS env"
  shows "(\<exists>r. validate_email env email enabled = (Inr r, []) \<and> is_blacklisted r)
       \<and> validate_email (env\<lparr> env_resolve := rslv, env_server := srv \<rparr>) email enabled
           = validate_email env email enabled"
  using assms by (simp add: validate_email_def Let_def)

theorem blacklisted_is_terminal_witness:
  "domain_of ''User@Spam.Example'' \<in> BLACKLISTED_DOMAINS env_no_route
   \<and> (\<exists>r. validate_email env_no_route ''User@Spam.Example'' True = (Inr r, [])
          \<and> is_blacklisted r)"
proof -
  have h: "domain_of ''User@Spam.Example'' \<in> BLACKLISTED_DOMAINS env_no_route"
    by (simp add: domain_of_mixed_case env_no_route_def)
  show ?thesis
    using h blacklisted_is_terminal [OF h, of True] by simp
qed

text \<open>
  C10. For every address and every setting of the SMTP check, the endpoint returns a
  result, and its \<open>is_valid_format\<close> is \<open>True\<close>.
\<close>

theorem is_valid_format_always_true:
  "\<exists>r calls. validate_email env email enabled = (Inr r, calls) \<and> is_valid_format r"
  using get_mx_records_returns [of "env_resolve env" "domain_of email"]
    check_smtp_returns [of _ "env_server env" email]
  by (fastforce simp: validate_email_def Let_def split: option.splits sum.splits)

end
